theory Spec2Isabelle
  imports Complex_Main "HOL-Library.Word" "HOL-Library.Signed_Division"
begin

section \<open>Pixel formats and image sizes (shveu-convert.c, shveu-display.c)\<close>

text \<open>
  The enumeration \<open>sh_vid_format_t\<close> is declared in \<open>shveu/shveu.h\<close>. The tools name
  five formats and the sentinel \<open>SH_UNKNOWN\<close>; \<open>SH_OTHER n\<close> stands for any further
  integer an object of the C enumeration type may hold (shveu-display.c passes the
  format as a plain \<open>int\<close>, with \<open>-1\<close> for "not given").
\<close>

datatype sh_vid_format =
  SH_UNKNOWN | SH_NV12 | SH_NV16 | SH_RGB565 | SH_RGB24 | SH_RGB32 | SH_OTHER int

text \<open>
  The \<open>switch\<close> of \<open>imgsize\<close>: the numerator \<open>n\<close> and the denominator \<open>d\<close> of the
  bytes per pixel, both C \<open>int\<close>s; \<open>None\<close> is the \<open>default\<close> branch.
\<close>

fun bytes_ratio :: "sh_vid_format \<Rightarrow> (32 word \<times> 32 word) option" where
  "bytes_ratio SH_RGB32 = Some (4, 1)"
| "bytes_ratio SH_RGB24 = Some (3, 1)"
| "bytes_ratio SH_RGB565 = Some (2, 1)"
| "bytes_ratio SH_NV16 = Some (2, 1)"
| "bytes_ratio SH_NV12 = Some (3, 2)"
| "bytes_ratio _ = None"

text \<open>
  \<open>return (off_t)(w*h*n/d)\<close>: the product is computed in 32-bit \<open>int\<close> (it wraps
  around), the division truncates towards zero, and the quotient is then widened to
  \<open>off_t\<close>, which keeps its value. The \<open>default\<close> branch returns \<open>-1\<close>.
\<close>

definition imgsize :: "sh_vid_format \<Rightarrow> 32 word \<Rightarrow> 32 word \<Rightarrow> int" where
  "imgsize colorspace w h =
     (case bytes_ratio colorspace of
        None \<Rightarrow> - 1
      | Some (n, d) \<Rightarrow> sint (w * h * n) sdiv sint d)"

text \<open>
  The chroma pointer of a surface as \<open>main\<close> of shveu-convert.c sets it up:
  \<open>if (src.format == SH_RGB565) src.pc = 0; else src.pc = src.py + (src.w * src.h);\<close>
  The product is a C \<open>int\<close>; addresses are left unbounded.
\<close>

definition convert_pc :: "sh_vid_format \<Rightarrow> int \<Rightarrow> 32 word \<Rightarrow> 32 word \<Rightarrow> int" where
  "convert_pc format py w h = (if format = SH_RGB565 then 0 else py + sint (w * h))"

text \<open>
  The same pointer in \<open>main\<close> of shveu-display.c, whatever the format:
  \<open>src_pc = src_py + (input_w * input_h);\<close>
\<close>

definition display_pc :: "int \<Rightarrow> 32 word \<Rightarrow> 32 word \<Rightarrow> int" where
  "display_pc src_py input_w input_h = src_py + sint (input_w * input_h)"

text \<open>
  The offset of the chroma plane from the start of the buffer is the chroma pointer of
  a buffer that starts at address 0.
\<close>

definition chroma_offset :: "sh_vid_format \<Rightarrow> 32 word \<Rightarrow> 32 word \<Rightarrow> int" where
  "chroma_offset format w h = convert_pc format 0 w h"

text \<open>
  Modelled from the spec: the size of the chroma plane, which no function of the tools
  computes. Section 4.1 gives the NV12 chroma plane \<open>width * height / 2\<close> bytes after a
  luma plane of \<open>width * height\<close> bytes; NV16 has 2 bytes per pixel, so its chroma plane
  is the \<open>width * height\<close> bytes that follow the luma plane; the RGB formats have no
  chroma plane.
\<close>

definition chroma_plane_size :: "sh_vid_format \<Rightarrow> int \<Rightarrow> int \<Rightarrow> int" where
  "chroma_plane_size format w h =
     (case format of SH_NV12 \<Rightarrow> w * h div 2 | SH_NV16 \<Rightarrow> w * h | _ \<Rightarrow> 0)"


section \<open>Drawing a rectangle into an RGB565 buffer (shveu-display.c)\<close>

text \<open>
  The surface is an array of 16-bit pixels; \<open>pix\<close> is an index into it, counted in
  pixels from the start of the surface. The value of a C \<open>int\<close> expression is its
  mathematical value wrapped to 32 bits.
\<close>

type_synonym pixbuf = "16 word list"

definition int32 :: "int \<Rightarrow> int" where
  "int32 k = signed_take_bit 31 k"

text \<open>
  \<open>*pix = color\<close>: a store outside the buffer is undefined behaviour in C and is the
  result \<open>None\<close> here.
\<close>

definition put_pixel :: "pixbuf \<Rightarrow> int \<Rightarrow> 16 word \<Rightarrow> pixbuf option" where
  "put_pixel buf pix color =
     (if 0 \<le> pix \<and> pix < int (length buf) then Some (buf[nat pix := color]) else None)"

text \<open>
  The inner loop \<open>for (xi=0; xi<w; xi++) *pix++ = color;\<close> with the number of
  iterations still to run as its first argument; it returns the advanced pointer.
\<close>

fun draw_row :: "nat \<Rightarrow> 16 word \<Rightarrow> int \<Rightarrow> pixbuf \<Rightarrow> (int \<times> pixbuf) option" where
  "draw_row 0 color pix buf = Some (pix, buf)"
| "draw_row (Suc n) color pix buf =
     (case put_pixel buf pix color of
        None \<Rightarrow> None
      | Some buf' \<Rightarrow> draw_row n color (pix + 1) buf')"

text \<open>
  The outer loop \<open>for (yi=0; yi<h; yi++) { ...; pix += (span-w); }\<close>. The source's
  parameter \<open>span\<close> is called \<open>stride\<close> here, \<open>span\<close> being a constant of the
  library.
\<close>

fun draw_rows :: "nat \<Rightarrow> 16 word \<Rightarrow> int \<Rightarrow> int \<Rightarrow> int \<Rightarrow> pixbuf \<Rightarrow> pixbuf option" where
  "draw_rows 0 color w stride pix buf = Some buf"
| "draw_rows (Suc n) color w stride pix buf =
     (case draw_row (nat w) color pix buf of
        None \<Rightarrow> None
      | Some (pix', buf') \<Rightarrow> draw_rows n color w stride (pix' + int32 (stride - w)) buf')"

text \<open>
  \<open>uint16_t *pix = (uint16_t *)surface + y*span + x;\<close> followed by the two nested iterations,
  which run \<open>h\<close> and \<open>w\<close> times when these are positive and not at all otherwise.
\<close>

definition draw_rect_rgb565 ::
  "pixbuf \<Rightarrow> 16 word \<Rightarrow> int \<Rightarrow> int \<Rightarrow> int \<Rightarrow> int \<Rightarrow> int \<Rightarrow> pixbuf option" where
  "draw_rect_rgb565 surface color x y w h stride =
     draw_rows (nat h) color w stride (int32 (y * stride) + x) surface"

text \<open>
  The intended effect, for comparison with the code: index \<open>i\<close> lies in the rectangle
  when its row \<open>i div stride\<close> is one of \<open>y, \<dots>, y + h - 1\<close> and its column
  \<open>i mod stride\<close> one of \<open>x, \<dots>, x + w - 1\<close>; \<open>paint P color buf\<close> is \<open>buf\<close> with
  exactly the pixels whose index satisfies \<open>P\<close> set to \<open>color\<close>.
\<close>

definition in_rect :: "int \<Rightarrow> int \<Rightarrow> int \<Rightarrow> int \<Rightarrow> int \<Rightarrow> int \<Rightarrow> bool" where
  "in_rect x y w h stride i \<longleftrightarrow>
     y \<le> i div stride \<and> i div stride < y + h \<and> x \<le> i mod stride \<and> i mod stride < x + w"

definition paint :: "(int \<Rightarrow> bool) \<Rightarrow> 16 word \<Rightarrow> pixbuf \<Rightarrow> pixbuf" where
  "paint P color buf = map (\<lambda>i. if P (int i) then color else buf ! i) [0..<length buf]"


section \<open>Geometry engine and operation state machine (libshveu)\<close>

text \<open>
  The tools call \<open>shveu_setup\<close>, \<open>shveu_set_src\<close>, \<open>shveu_set_dst\<close>, \<open>shveu_start\<close>,
  \<open>shveu_start_bundle\<close> and \<open>shveu_wait\<close>; the library file that implements them
  (\<open>src/libshveu/veu_colorspace.c\<close>) and the header \<open>shveu/shveu.h\<close> are not among the
  sources. The definitions of this section follow the specification, sections 3, 4.2
  and 4.3; the last one, \<open>bundle_loop\<close>, is the loop of shveu-display.c that drives
  them.
\<close>

text \<open>
  Modelled from the spec: the rotation of section 3 (\<open>None\<close>, \<open>Clockwise90\<close>), under the
  names \<open>SHVEU_NO_ROT\<close> and \<open>SHVEU_ROT_90\<close> that the tools pass; the header declaring
  them is missing.
\<close>

datatype rotation = SHVEU_NO_ROT | SHVEU_ROT_90

text \<open>
  Modelled from the spec: the two hardware revisions of section 3; the detection code
  is missing.
\<close>

datatype hw_revision = Revision_A | Revision_B

text \<open>Modelled from the spec: the error taxonomy of section 7.\<close>

datatype veu_error =
  UnsupportedFormat | OutOfBounds | ZeroSizedRegion | RotationScaleConflict
  | InvalidState | ResourceUnavailable | Timeout

text \<open>
  Modelled from the spec: the surface of section 3, with the field names the tools use
  for \<open>struct sh_vid_surface\<close> (\<open>format\<close>, \<open>w\<close>, \<open>h\<close>, \<open>py\<close>, \<open>pc\<close>); the structure's
  declaration is missing. Width and height are unsigned, addresses are opaque numbers.
\<close>

record sh_vid_surface =
  surf_format :: sh_vid_format
  surf_w :: nat
  surf_h :: nat
  surf_py :: nat
  surf_pc :: nat

text \<open>
  Modelled from the spec: the selection of section 3 (signed position, unsigned size),
  with the field names of \<open>struct sh_vid_rect\<close>, whose declaration is missing.
\<close>

record sh_vid_rect =
  rect_x :: int
  rect_y :: int
  rect_w :: nat
  rect_h :: nat

text \<open>
  Modelled from the spec: the operation plan of section 4.2, step 8: the resolved
  rectangles, the rotation mode or else the two scale ratios, and the base addresses of
  the two surfaces. The byte offsets of step 7 and the enlargement correction of step 6
  are register values whose arithmetic the specification leaves open (section 9); the
  record does not carry them.
\<close>

record operation_plan =
  plan_src :: sh_vid_rect
  plan_dst :: sh_vid_rect
  plan_rotation :: rotation
  plan_scale :: "(rat \<times> rat) option"
  plan_src_base :: "nat \<times> nat"
  plan_dst_base :: "nat \<times> nat"

text \<open>Modelled from the spec: the full extent of a surface (section 4.2, steps 1 and 2).\<close>

definition full_extent :: "sh_vid_surface \<Rightarrow> sh_vid_rect" where
  "full_extent s = \<lparr>rect_x = 0, rect_y = 0, rect_w = surf_w s, rect_h = surf_h s\<rparr>"

text \<open>
  Modelled from the spec: the effective rectangle of section 4.2, steps 1 and 2: the
  selection if one is given, else the full extent.
\<close>

definition effective_rect :: "sh_vid_surface \<Rightarrow> sh_vid_rect option \<Rightarrow> sh_vid_rect" where
  "effective_rect s sel = (case sel of None \<Rightarrow> full_extent s | Some r \<Rightarrow> r)"

text \<open>
  Modelled from the spec: the condition of the failure mode \<open>ZeroSizedRegion\<close>
  (section 4.2): the rectangle has zero width or height.
\<close>

definition zero_sized :: "sh_vid_rect \<Rightarrow> bool" where
  "zero_sized r \<longleftrightarrow> rect_w r = 0 \<or> rect_h r = 0"

text \<open>
  Modelled from the spec: a rectangle lies within the bounds of its surface
  (section 3, the invariant of a selection; section 4.2, step 3).
\<close>

definition within_bounds :: "sh_vid_surface \<Rightarrow> sh_vid_rect \<Rightarrow> bool" where
  "within_bounds s r \<longleftrightarrow>
     0 \<le> rect_x r \<and> 0 \<le> rect_y r
     \<and> rect_x r + int (rect_w r) \<le> int (surf_w s)
     \<and> rect_y r + int (rect_h r) \<le> int (surf_h s)"

text \<open>
  Modelled from the spec: the validation of one rectangle (section 4.2, step 3 and the
  failure modes). A rectangle of zero width or height is a \<open>ZeroSizedRegion\<close>; any other
  rectangle that leaves its surface is \<open>OutOfBounds\<close>.
\<close>

definition check_rect :: "sh_vid_surface \<Rightarrow> sh_vid_rect \<Rightarrow> veu_error option" where
  "check_rect s r =
     (if zero_sized r then Some ZeroSizedRegion
      else if \<not> within_bounds s r then Some OutOfBounds
      else None)"

text \<open>
  Modelled from the spec: a format is supported when the calculator of section 4.1
  gives it a size, that is, when it is one of the five formats \<open>imgsize\<close> handles.
\<close>

definition supported_format :: "sh_vid_format \<Rightarrow> bool" where
  "supported_format f \<longleftrightarrow> bytes_ratio f \<noteq> None"

text \<open>
  Modelled from the spec: the condition of section 4.2, step 4: the source width is the
  destination height and the source height is the destination width.
\<close>

definition swapped_dims :: "sh_vid_rect \<Rightarrow> sh_vid_rect \<Rightarrow> bool" where
  "swapped_dims sr dr \<longleftrightarrow> rect_w sr = rect_h dr \<and> rect_h sr = rect_w dr"

text \<open>
  Modelled from the spec: the scale ratios of section 4.2, step 5, destination size over
  source size, as exact fractions (the fixed-point register encoding is missing).
\<close>

definition scale_ratios :: "sh_vid_rect \<Rightarrow> sh_vid_rect \<Rightarrow> rat \<times> rat" where
  "scale_ratios sr dr =
     (of_nat (rect_w dr) / of_nat (rect_w sr), of_nat (rect_h dr) / of_nat (rect_h sr))"

text \<open>
  Modelled from the spec: \<open>plan_operation\<close> of section 4.2, whose implementation in the
  library is missing. Steps 1 and 2 resolve the rectangles, step 3 validates the source
  rectangle, then the destination rectangle, then the two formats, step 4 rejects a
  rotation whose dimensions are not swapped, step 5 computes the ratios.
\<close>

definition plan_operation ::
  "sh_vid_surface \<Rightarrow> sh_vid_rect option \<Rightarrow> sh_vid_surface \<Rightarrow> sh_vid_rect option
     \<Rightarrow> rotation \<Rightarrow> hw_revision \<Rightarrow> veu_error + operation_plan" where
  "plan_operation src src_selection dst dst_selection rot hw =
     (let sr = effective_rect src src_selection;
          dr = effective_rect dst dst_selection
      in case check_rect src sr of
           Some e \<Rightarrow> Inl e
         | None \<Rightarrow>
             (case check_rect dst dr of
                Some e \<Rightarrow> Inl e
              | None \<Rightarrow>
                  if \<not> (supported_format (surf_format src) \<and> supported_format (surf_format dst))
                  then Inl UnsupportedFormat
                  else (case rot of
                          SHVEU_ROT_90 \<Rightarrow>
                            if swapped_dims sr dr
                            then Inr \<lparr>plan_src = sr, plan_dst = dr, plan_rotation = SHVEU_ROT_90,
                                      plan_scale = None,
                                      plan_src_base = (surf_py src, surf_pc src),
                                      plan_dst_base = (surf_py dst, surf_pc dst)\<rparr>
                            else Inl RotationScaleConflict
                        | SHVEU_NO_ROT \<Rightarrow>
                            Inr \<lparr>plan_src = sr, plan_dst = dr, plan_rotation = SHVEU_NO_ROT,
                                 plan_scale = Some (scale_ratios sr dr),
                                 plan_src_base = (surf_py src, surf_pc src),
                                 plan_dst_base = (surf_py dst, surf_pc dst)\<rparr>)))"

text \<open>
  Modelled from the spec: the six conditions that the testable property of section 8
  puts on a selection \<open>R\<close> of a surface \<open>S\<close>.
\<close>

definition valid_selection :: "sh_vid_surface \<Rightarrow> sh_vid_rect \<Rightarrow> bool" where
  "valid_selection s r \<longleftrightarrow>
     0 \<le> rect_x r \<and> 0 \<le> rect_y r
     \<and> rect_x r + int (rect_w r) \<le> int (surf_w s)
     \<and> rect_y r + int (rect_h r) \<le> int (surf_h s)
     \<and> 0 < rect_w r \<and> 0 < rect_h r"

text \<open>Modelled from the spec: the three job states of section 4.3.\<close>

datatype job_state = Idle | Configured | Running

text \<open>
  Modelled from the spec: the engine handle of section 3 (revision, current
  configuration, job state), together with what section 4.3 says the engine holds
  between calls: the configured base addresses of source and destination (luma, chroma),
  the number of lines the triggered job processes, and the accumulated count of
  processed lines.
\<close>

record engine_handle =
  revision :: hw_revision
  current_config :: "operation_plan option"
  job_state :: job_state
  src_base :: "nat \<times> nat"
  dst_base :: "nat \<times> nat"
  pending_lines :: nat
  lines_done :: nat

text \<open>
  Modelled from the spec: a freshly opened handle (section 4.3: \<open>Idle\<close>, no
  configuration applied).
\<close>

definition open_engine :: "hw_revision \<Rightarrow> engine_handle" where
  "open_engine hw = \<lparr>revision = hw, current_config = None, job_state = Idle,
                      src_base = (0, 0), dst_base = (0, 0), pending_lines = 0, lines_done = 0\<rparr>"

text \<open>
  Modelled from the spec: the height of the configured frame in lines, the height of
  the plan's source rectangle.
\<close>

definition frame_lines :: "engine_handle \<Rightarrow> nat" where
  "frame_lines veu = (case current_config veu of None \<Rightarrow> 0 | Some p \<Rightarrow> rect_h (plan_src p))"

text \<open>
  Modelled from the spec: \<open>configure\<close> of section 4.3: valid from \<open>Idle\<close> or \<open>Configured\<close>,
  \<open>InvalidState\<close> while \<open>Running\<close>; it writes the plan and moves to \<open>Configured\<close>. Every
  operation returns its error, if any, and the handle after the call.
\<close>

definition configure :: "operation_plan \<Rightarrow> engine_handle \<Rightarrow> veu_error option \<times> engine_handle" where
  "configure p veu =
     (if job_state veu = Running then (Some InvalidState, veu)
      else (None, veu\<lparr>current_config := Some p, job_state := Configured,
                       src_base := plan_src_base p, dst_base := plan_dst_base p,
                       pending_lines := 0, lines_done := 0\<rparr>))"

text \<open>
  Modelled from the spec: \<open>start\<close> of section 4.3: valid only from \<open>Configured\<close>; it
  triggers the whole frame and moves to \<open>Running\<close>.
\<close>

definition start :: "engine_handle \<Rightarrow> veu_error option \<times> engine_handle" where
  "start veu =
     (if job_state veu = Configured
      then (None, veu\<lparr>job_state := Running, pending_lines := frame_lines veu, lines_done := 0\<rparr>)
      else (Some InvalidState, veu))"

text \<open>
  Modelled from the spec: \<open>start_bundle\<close> of section 4.3: valid only from \<open>Configured\<close>;
  it triggers \<open>line_count\<close> rows from the configured base addresses and moves to
  \<open>Running\<close>.
\<close>

definition start_bundle :: "nat \<Rightarrow> engine_handle \<Rightarrow> veu_error option \<times> engine_handle" where
  "start_bundle line_count veu =
     (if job_state veu = Configured
      then (None, veu\<lparr>job_state := Running, pending_lines := line_count\<rparr>)
      else (Some InvalidState, veu))"

text \<open>
  Modelled from the spec: \<open>set_source\<close> of section 4.3: valid only from \<open>Configured\<close>; it
  replaces the source base addresses and nothing else.
\<close>

definition set_source :: "nat \<Rightarrow> nat \<Rightarrow> engine_handle \<Rightarrow> veu_error option \<times> engine_handle" where
  "set_source luma_addr chroma_addr veu =
     (if job_state veu = Configured
      then (None, veu\<lparr>src_base := (luma_addr, chroma_addr)\<rparr>)
      else (Some InvalidState, veu))"

text \<open>
  Modelled from the spec: \<open>set_destination\<close> of section 4.3: valid only from
  \<open>Configured\<close>; it replaces the destination base addresses and nothing else.
\<close>

definition set_destination ::
  "nat \<Rightarrow> nat \<Rightarrow> engine_handle \<Rightarrow> veu_error option \<times> engine_handle" where
  "set_destination luma_addr chroma_addr veu =
     (if job_state veu = Configured
      then (None, veu\<lparr>dst_base := (luma_addr, chroma_addr)\<rparr>)
      else (Some InvalidState, veu))"

text \<open>
  Modelled from the spec: \<open>wait\<close> of section 4.3: valid only from \<open>Running\<close>. The first
  argument is the hardware's answer: completion, or none within the bound, which is the
  error \<open>Timeout\<close>. On completion the lines of the job are added to the processed
  lines, the handle returns to \<open>Configured\<close>, and the result tells whether the whole
  frame is done (the value the tool's loop reads as \<open>end\<close>).
\<close>

definition wait :: "bool \<Rightarrow> engine_handle \<Rightarrow> (veu_error + bool) \<times> engine_handle" where
  "wait hw_completed veu =
     (if job_state veu \<noteq> Running then (Inl InvalidState, veu)
      else if \<not> hw_completed then (Inl Timeout, veu)
      else (let done = lines_done veu + pending_lines veu
            in (Inr (frame_lines veu \<le> done),
                veu\<lparr>job_state := Configured, pending_lines := 0, lines_done := done\<rparr>)))"

text \<open>
  Modelled from the spec: planning followed by configuration (section 6), under the
  name \<open>shveu_setup\<close> and with the argument order of the call in shveu-display.c; the
  function itself is missing. A request that fails planning writes nothing.
\<close>

definition shveu_setup ::
  "engine_handle \<Rightarrow> sh_vid_surface \<Rightarrow> sh_vid_surface \<Rightarrow> sh_vid_rect option
     \<Rightarrow> sh_vid_rect option \<Rightarrow> rotation \<Rightarrow> veu_error option \<times> engine_handle" where
  "shveu_setup veu src dst src_selection dst_selection rot =
     (case plan_operation src src_selection dst dst_selection rot (revision veu) of
        Inl e \<Rightarrow> (Some e, veu)
      | Inr p \<Rightarrow> configure p veu)"

text \<open>
  The loop of \<open>scale\<close> in shveu-display.c (compiled with \<open>BUNDLE\<close>):
  \<^verbatim>\<open>while (end == 0) { shveu_set_src(veu, py, pc); shveu_set_dst(veu, bb_virt, 0);
    py += nr_lines * w * 1; pc += nr_lines * w / 2; bb_virt += nr_lines * lcd_w * 2;
    shveu_start_bundle(veu, nr_lines); end = shveu_wait(veu); }\<close>
  The results of the first three calls are dropped, as in the source. The source steps
  the destination by \<open>nr_lines * lcd_w * 2\<close> bytes with the chroma address 0, its
  destination being the RGB565 back buffer; here the step per chunk is the argument
  \<open>dst_step\<close> (luma, chroma). The loop may run for ever: its first argument lists the
  hardware's answers to the successive waits, and the result is \<open>None\<close> when they run
  out before a wait returns something other than 0. A finished loop returns the number
  of iterations, the value of \<open>end\<close> and the handle.
\<close>

fun bundle_loop ::
  "bool list \<Rightarrow> nat \<Rightarrow> nat \<Rightarrow> nat \<times> nat \<Rightarrow> nat \<times> nat \<Rightarrow> nat \<times> nat \<Rightarrow> engine_handle
     \<Rightarrow> (nat \<times> (veu_error + bool) \<times> engine_handle) option" where
  "bundle_loop [] nr_lines w dst_step src_addr dst_addr veu = None"
| "bundle_loop (hw_completed # later) nr_lines w dst_step src_addr dst_addr veu =
     (let veu1 = snd (set_source (fst src_addr) (snd src_addr) veu);
          veu2 = snd (set_destination (fst dst_addr) (snd dst_addr) veu1);
          src_addr' = (fst src_addr + nr_lines * w * 1, snd src_addr + nr_lines * w div 2);
          dst_addr' = (fst dst_addr + fst dst_step, snd dst_addr + snd dst_step);
          veu3 = snd (start_bundle nr_lines veu2);
          (end, veu4) = wait hw_completed veu3
      in if end = Inr False
         then (case bundle_loop later nr_lines w dst_step src_addr' dst_addr' veu4 of
                 None \<Rightarrow> None
               | Some (k, r) \<Rightarrow> Some (Suc k, r))
         else Some (1, end, veu4))"

text \<open>Surfaces and a handle for the scenarios of section 8 of the specification.\<close>

definition vga_nv12 :: "nat \<Rightarrow> nat \<Rightarrow> sh_vid_surface" where
  "vga_nv12 py pc = \<lparr>surf_format = SH_NV12, surf_w = 640, surf_h = 480, surf_py = py, surf_pc = pc\<rparr>"

definition cif_rgb565 :: sh_vid_surface where
  "cif_rgb565 = \<lparr>surf_format = SH_RGB565, surf_w = 352, surf_h = 288, surf_py = 0, surf_pc = 0\<rparr>"

definition cif_rotated_rgb565 :: sh_vid_surface where
  "cif_rotated_rgb565 =
     \<lparr>surf_format = SH_RGB565, surf_w = 288, surf_h = 352, surf_py = 1000000, surf_pc = 0\<rparr>"

definition running_engine :: engine_handle where
  "running_engine =
     snd (start (snd (shveu_setup (open_engine Revision_B) (vga_nv12 0 307200)
                        (vga_nv12 1000000 1307200) None None SHVEU_NO_ROT)))"


section \<open>Properties of the size computation\<close>

lemma sint_mult_exact:
  fixes a b :: "32 word"
  assumes "- (2 ^ 31) \<le> sint a * sint b" and "sint a * sint b < 2 ^ 31"
  shows "sint (a * b) = sint a * sint b"
  using assms by (simp add: sint_word_ariths signed_take_bit_int_eq_self)

lemma sint_area_exact:
  fixes w h :: "32 word"
  assumes "0 < sint w" and "0 < sint h" and "sint w * sint h * k < 2 ^ 31" and "1 \<le> k"
  shows "sint (w * h) = sint w * sint h"
proof -
  have pos: "0 < sint w * sint h" using assms(1,2) by simp
  then have "sint w * sint h * 1 \<le> sint w * sint h * k"
    using assms(4) by (intro mult_left_mono) simp_all
  then have "sint w * sint h < 2 ^ 31" using assms(3) by simp
  then show ?thesis using pos by (intro sint_mult_exact) simp_all
qed

lemma sint_scaled_area_exact:
  fixes w h n :: "32 word"
  assumes "0 < sint w" and "0 < sint h" and "1 \<le> sint n"
    and "sint w * sint h * sint n < 2 ^ 31"
  shows "sint (w * h * n) = sint w * sint h * sint n"
proof -
  have wh: "sint (w * h) = sint w * sint h"
    using assms by (intro sint_area_exact [where k = "sint n"]) simp_all
  have "0 < sint w * sint h" using assms(1,2) by simp
  then have "0 \<le> sint w * sint h * sint n" using assms(3) by simp
  then have "sint (w * h * n) = sint (w * h) * sint n"
    using assms(4) wh by (intro sint_mult_exact) simp_all
  then show ?thesis by (simp add: wh)
qed

lemma sdiv_nonneg_eq_div:
  fixes k l :: int
  assumes "0 \<le> k" and "0 < l"
  shows "k sdiv l = k div l"
  using assms by (simp add: signed_divide_int_def sgn_if)

lemma imgsize_in_range:
  assumes "bytes_ratio colorspace = Some (n, d)"
    and "0 < sint w" and "0 < sint h" and "sint w * sint h * sint n < 2 ^ 31"
  shows "imgsize colorspace w h = sint w * sint h * sint n div sint d"
proof -
  have nd: "1 \<le> sint n \<and> 0 < sint d"
    using assms(1) by (cases colorspace) auto
  have prod: "sint (w * h * n) = sint w * sint h * sint n"
    using assms nd by (intro sint_scaled_area_exact) simp_all
  have "0 < sint w * sint h" using assms(2,3) by simp
  then have "0 \<le> sint w * sint h * sint n" using nd by simp
  then show ?thesis
    using nd by (simp add: imgsize_def assms(1) prod sdiv_nonneg_eq_div)
qed


text \<open>
  Claim C1, as the code has it: for positive \<open>w\<close> and \<open>h\<close> whose byte count
  \<open>w * h * n\<close> (\<open>n\<close> the bytes-per-pixel numerator: 2, 3 or 4) still fits the 32-bit
  \<open>int\<close> the product is computed in, \<open>imgsize\<close> returns exactly \<open>w * h * 2\<close> for RGB565
  and NV16, \<open>w * h * 3\<close> for RGB24, \<open>w * h * 4\<close> for RGB32, and the truncated quotient
  \<open>w * h * 3 / 2\<close> for NV12.
\<close>

theorem imgsize_exact:
  assumes "0 < sint w" and "0 < sint h"
  shows "(sint w * sint h * 2 < 2 ^ 31 \<longrightarrow>
            imgsize SH_RGB565 w h = sint w * sint h * 2 \<and>
            imgsize SH_NV16 w h = sint w * sint h * 2)
       \<and> (sint w * sint h * 3 < 2 ^ 31 \<longrightarrow>
            imgsize SH_RGB24 w h = sint w * sint h * 3 \<and>
            imgsize SH_NV12 w h = sint w * sint h * 3 div 2)
       \<and> (sint w * sint h * 4 < 2 ^ 31 \<longrightarrow>
            imgsize SH_RGB32 w h = sint w * sint h * 4)"
proof (intro conjI impI)
  assume b: "sint w * sint h * 2 < 2 ^ 31"
  show "imgsize SH_RGB565 w h = sint w * sint h * 2"
    using imgsize_in_range [of SH_RGB565 2 1 w h] assms b by simp
  show "imgsize SH_NV16 w h = sint w * sint h * 2"
    using imgsize_in_range [of SH_NV16 2 1 w h] assms b by simp
next
  assume b: "sint w * sint h * 3 < 2 ^ 31"
  show "imgsize SH_RGB24 w h = sint w * sint h * 3"
    using imgsize_in_range [of SH_RGB24 3 1 w h] assms b by simp
  show "imgsize SH_NV12 w h = sint w * sint h * 3 div 2"
    using imgsize_in_range [of SH_NV12 3 2 w h] assms b by simp
next
  assume b: "sint w * sint h * 4 < 2 ^ 31"
  show "imgsize SH_RGB32 w h = sint w * sint h * 4"
    using imgsize_in_range [of SH_RGB32 4 1 w h] assms b by simp
qed

theorem imgsize_exact_witness:
  "imgsize SH_RGB565 5 3 = 30 \<and> imgsize SH_NV16 5 3 = 30 \<and> imgsize SH_RGB24 5 3 = 45
   \<and> imgsize SH_NV12 5 3 = 22 \<and> imgsize SH_RGB32 5 3 = 60"
  using imgsize_exact [of 5 3] by simp

text \<open>
  Claim C1 as stated fails once the product leaves the range of \<open>int\<close>: for a
  65536 by 65536 RGB565 image the claimed size is \<open>2 ^ 33\<close>, and the 32-bit expression
  yields 0.
\<close>

theorem imgsize_overflow_counterexample:
  "0 < sint (65536 :: 32 word)
   \<and> imgsize SH_RGB565 65536 65536 = 0
   \<and> imgsize SH_RGB565 65536 65536 \<noteq> sint (65536 :: 32 word) * sint (65536 :: 32 word) * 2"
  by (simp add: imgsize_def)


text \<open>
  Claim C3: for the unknown sentinel and for every value outside
  RGB565, RGB24, RGB32, NV12 and NV16, \<open>imgsize\<close> returns \<open>-1\<close>, whatever the
  dimensions.
\<close>

theorem imgsize_unsupported:
  assumes "colorspace \<notin> {SH_RGB565, SH_RGB24, SH_RGB32, SH_NV12, SH_NV16}"
  shows "imgsize colorspace w h = - 1"
  using assms by (cases colorspace) (simp_all add: imgsize_def)

theorem imgsize_unsupported_witness:
  "imgsize SH_UNKNOWN 640 480 = - 1 \<and> imgsize (SH_OTHER 7) 640 480 = - 1"
  using imgsize_unsupported [of SH_UNKNOWN 640 480]
    imgsize_unsupported [of "SH_OTHER 7" 640 480]
  by simp


text \<open>
  Claim C2, as the code has it: for positive \<open>w\<close> and \<open>h\<close> whose product fits the
  32-bit \<open>int\<close> it is computed in, shveu-convert.c puts the chroma plane of an NV12 or
  NV16 surface \<open>w * h\<close> bytes after the start of the buffer and gives an RGB565 surface
  the chroma pointer 0; shveu-display.c puts the chroma pointer \<open>w * h\<close> bytes after
  the start of the buffer for every format.
\<close>

theorem chroma_offset_semi_planar:
  assumes "0 < sint w" and "0 < sint h" and "sint w * sint h < 2 ^ 31"
  shows "chroma_offset SH_NV12 w h = sint w * sint h
       \<and> chroma_offset SH_NV16 w h = sint w * sint h
       \<and> convert_pc SH_NV12 py w h = py + sint w * sint h
       \<and> convert_pc SH_NV16 py w h = py + sint w * sint h
       \<and> convert_pc SH_RGB565 py w h = 0
       \<and> chroma_offset SH_RGB565 w h = 0
       \<and> display_pc py w h = py + sint w * sint h"
proof -
  have "sint (w * h) = sint w * sint h"
    using assms by (intro sint_area_exact [where k = 1]) simp_all
  then show ?thesis
    by (simp add: chroma_offset_def convert_pc_def display_pc_def)
qed

theorem chroma_offset_semi_planar_witness:
  "chroma_offset SH_NV12 176 144 = 25344 \<and> chroma_offset SH_NV16 176 144 = 25344
   \<and> convert_pc SH_NV12 4096 176 144 = 29440 \<and> convert_pc SH_RGB565 4096 176 144 = 0
   \<and> chroma_offset SH_RGB565 176 144 = 0 \<and> display_pc 4096 176 144 = 29440"
  using chroma_offset_semi_planar [of 176 144 4096] by simp

text \<open>
  Claim C2 as stated fails for RGB24 and RGB32: shveu-convert.c clears the chroma
  pointer for RGB565 only, so a QCIF (176 by 144) RGB24 or RGB32 surface gets the
  offset \<open>176 * 144 = 25344\<close>, not 0. It also fails for NV12 once \<open>w * h\<close> leaves the
  range of \<open>int\<close>: 65536 by 65536 gives the offset 0.
\<close>

theorem chroma_offset_rgb_counterexample:
  "0 < sint (176 :: 32 word) \<and> 0 < sint (144 :: 32 word)
   \<and> chroma_offset SH_RGB24 176 144 = 25344 \<and> chroma_offset SH_RGB32 176 144 = 25344
   \<and> chroma_offset SH_RGB24 176 144 \<noteq> 0 \<and> chroma_offset SH_RGB32 176 144 \<noteq> 0
   \<and> 0 < sint (65536 :: 32 word)
   \<and> chroma_offset SH_NV12 65536 65536 \<noteq> sint (65536 :: 32 word) * sint (65536 :: 32 word)"
  by (simp add: chroma_offset_def convert_pc_def)


text \<open>
  Claim C7, as the code has it: for every supported format and positive \<open>w\<close> and \<open>h\<close>
  whose byte count \<open>w * h * n\<close> fits the 32-bit \<open>int\<close>, the chroma offset plus the size
  of the chroma plane is at most the total that \<open>imgsize\<close> returns, also for NV12,
  whose total is the truncated \<open>w * h * 3 / 2\<close>.
\<close>

theorem chroma_plane_within_total:
  assumes "bytes_ratio format = Some (n, d)"
    and "0 < sint w" and "0 < sint h" and "sint w * sint h * sint n < 2 ^ 31"
  shows "chroma_offset format w h + chroma_plane_size format (sint w) (sint h)
           \<le> imgsize format w h"
proof -
  define a where "a = sint w * sint h"
  have n1: "1 \<le> sint n" using assms(1) by (cases format) auto
  have area: "sint (w * h) = a"
    unfolding a_def using assms n1 by (intro sint_area_exact [where k = "sint n"]) simp_all
  have pos: "0 < a" unfolding a_def using assms(2,3) by simp
  have total: "imgsize format w h = a * sint n div sint d"
    unfolding a_def using assms by (rule imgsize_in_range)
  have off: "chroma_offset format w h = (if format = SH_RGB565 then 0 else a)"
    by (simp add: chroma_offset_def convert_pc_def area)
  have plane: "chroma_plane_size format (sint w) (sint h) =
      (case format of SH_NV12 \<Rightarrow> a div 2 | SH_NV16 \<Rightarrow> a | _ \<Rightarrow> 0)"
    unfolding chroma_plane_size_def a_def by (rule refl)
  show ?thesis
  proof (cases format)
    case SH_NV12
    then have "n = 3" and "d = 2" using assms(1) by simp_all
    then show ?thesis
      using pos SH_NV12 total off plane by simp
  next
    case SH_NV16
    then have "n = 2" and "d = 1" using assms(1) by simp_all
    then show ?thesis
      using pos SH_NV16 total off plane by simp
  next
    case SH_RGB565
    then have "n = 2" and "d = 1" using assms(1) by simp_all
    then show ?thesis
      using pos SH_RGB565 total off plane by simp
  next
    case SH_RGB24
    then have "n = 3" and "d = 1" using assms(1) by simp_all
    then show ?thesis
      using pos SH_RGB24 total off plane by simp
  next
    case SH_RGB32
    then have "n = 4" and "d = 1" using assms(1) by simp_all
    then show ?thesis
      using pos SH_RGB32 total off plane by simp
  next
    case SH_UNKNOWN
    then show ?thesis using assms(1) by simp
  next
    case (SH_OTHER k)
    then show ?thesis using assms(1) by simp
  qed
qed

theorem chroma_plane_within_total_witness:
  "chroma_offset SH_NV12 5 3 + chroma_plane_size SH_NV12 5 3 \<le> imgsize SH_NV12 5 3
   \<and> imgsize SH_NV12 5 3 = 22 \<and> chroma_offset SH_NV12 5 3 = 15
   \<and> chroma_plane_size SH_NV12 5 3 = 7"
  using chroma_plane_within_total [of SH_NV12 3 2 5 3]
  by (simp add: imgsize_def chroma_offset_def convert_pc_def chroma_plane_size_def)

text \<open>
  Claim C7 as stated fails when the product overflows: for a 32768 by 32768 NV12
  surface the offset \<open>w * h = 2 ^ 30\<close> is still exact, while \<open>w * h * 3\<close> wraps to
  a negative \<open>int\<close> and the total comes out as \<open>- (2 ^ 29)\<close>.
\<close>

theorem chroma_plane_overflow_counterexample:
  "0 < sint (32768 :: 32 word)
   \<and> chroma_offset SH_NV12 32768 32768 = 1073741824
   \<and> chroma_plane_size SH_NV12 (sint (32768 :: 32 word)) (sint (32768 :: 32 word)) = 536870912
   \<and> imgsize SH_NV12 32768 32768 = - 536870912
   \<and> \<not> (chroma_offset SH_NV12 32768 32768
          + chroma_plane_size SH_NV12 (sint (32768 :: 32 word)) (sint (32768 :: 32 word))
        \<le> imgsize SH_NV12 32768 32768)"
  by (simp add: imgsize_def chroma_offset_def convert_pc_def chroma_plane_size_def)


section \<open>Properties of the rectangle drawing\<close>

lemma length_paint [simp]: "length (paint P color buf) = length buf"
  by (simp add: paint_def)

lemma nth_paint [simp]:
  "i < length buf \<Longrightarrow> paint P color buf ! i = (if P (int i) then color else buf ! i)"
  by (simp add: paint_def)

lemma int32_id: "- (2 ^ 31) \<le> k \<Longrightarrow> k < 2 ^ 31 \<Longrightarrow> int32 k = k"
  by (simp add: int32_def signed_take_bit_int_eq_self)

lemma draw_row_paint:
  assumes "0 \<le> pix" and "pix + int n \<le> int (length buf)"
  shows "draw_row n color pix buf =
           Some (pix + int n, paint (\<lambda>i. pix \<le> i \<and> i < pix + int n) color buf)"
  using assms
proof (induction n arbitrary: pix buf)
  case 0
  have "paint (\<lambda>i. pix \<le> i \<and> i < pix) color buf = buf"
    by (rule nth_equalityI) auto
  then show ?case by simp
next
  case (Suc n)
  let ?b = "buf[nat pix := color]"
  have put: "put_pixel buf pix color = Some ?b"
    using Suc.prems by (simp add: put_pixel_def)
  have ih: "draw_row n color (pix + 1) ?b =
      Some (pix + 1 + int n, paint (\<lambda>i. pix + 1 \<le> i \<and> i < pix + 1 + int n) color ?b)"
    using Suc.prems by (intro Suc.IH) simp_all
  have "paint (\<lambda>i. pix + 1 \<le> i \<and> i < pix + 1 + int n) color ?b =
        paint (\<lambda>i. pix \<le> i \<and> i < pix + int (Suc n)) color buf"
  proof (rule nth_equalityI)
    show "length (paint (\<lambda>i. pix + 1 \<le> i \<and> i < pix + 1 + int n) color ?b) =
          length (paint (\<lambda>i. pix \<le> i \<and> i < pix + int (Suc n)) color buf)"
      by simp
  next
    fix i
    assume "i < length (paint (\<lambda>i. pix + 1 \<le> i \<and> i < pix + 1 + int n) color ?b)"
    then have i: "i < length buf" by simp
    show "paint (\<lambda>i. pix + 1 \<le> i \<and> i < pix + 1 + int n) color ?b ! i =
          paint (\<lambda>i. pix \<le> i \<and> i < pix + int (Suc n)) color buf ! i"
    proof (cases "int i = pix")
      case True
      then have "i = nat pix" by simp
      then show ?thesis using i True by simp
    next
      case False
      then have "i \<noteq> nat pix" using Suc.prems(1) by auto
      then show ?thesis using i False by auto
    qed
  qed
  then show ?case using put ih by simp
qed

lemma draw_rows_paint:
  assumes "0 \<le> pix" and "0 \<le> w" and "w \<le> stride" and "stride < 2 ^ 31"
    and "n = 0 \<or> pix + (int n - 1) * stride + w \<le> int (length buf)"
  shows "draw_rows n color w stride pix buf =
           Some (paint (\<lambda>i. \<exists>k. 0 \<le> k \<and> k < int n \<and> pix + k * stride \<le> i \<and> i < pix + k * stride + w)
                   color buf)"
  using assms
proof (induction n arbitrary: pix buf)
  case 0
  have "paint (\<lambda>i. \<exists>k. 0 \<le> k \<and> k < int 0 \<and> pix + k * stride \<le> i \<and> i < pix + k * stride + w) color buf = buf"
    by (rule nth_equalityI) auto
  then show ?case by simp
next
  case (Suc n)
  let ?b = "paint (\<lambda>i. pix \<le> i \<and> i < pix + w) color buf"
  have fit: "pix + int (Suc n - 1) * stride + w \<le> int (length buf)"
    using Suc.prems(5) by simp
  have "0 \<le> int n * stride" using Suc.prems(2,3) by simp
  then have row_fits: "pix + int (nat w) \<le> int (length buf)"
    using fit Suc.prems(2) by simp
  have row: "draw_row (nat w) color pix buf = Some (pix + w, ?b)"
    using draw_row_paint [OF Suc.prems(1) row_fits, of color] Suc.prems(2) by simp
  have step: "int32 (stride - w) = stride - w"
    using Suc.prems(2,3,4) by (intro int32_id) simp_all
  have next_fit: "n = 0 \<or> (pix + stride) + (int n - 1) * stride + w \<le> int (length ?b)"
    using fit by (simp add: algebra_simps)
  have ih: "draw_rows n color w stride (pix + stride) ?b =
      Some (paint (\<lambda>i. \<exists>k. 0 \<le> k \<and> k < int n \<and> pix + stride + k * stride \<le> i \<and> i < pix + stride + k * stride + w)
              color ?b)"
    using Suc.prems next_fit by (intro Suc.IH) simp_all
  have eq: "paint (\<lambda>i. \<exists>k. 0 \<le> k \<and> k < int n \<and> pix + stride + k * stride \<le> i \<and> i < pix + stride + k * stride + w) color ?b
      = paint (\<lambda>i. \<exists>k. 0 \<le> k \<and> k < int (Suc n) \<and> pix + k * stride \<le> i \<and> i < pix + k * stride + w) color buf"
    (is "paint ?P color ?b = paint ?Q color buf")
  proof (rule nth_equalityI)
    show "length (paint ?P color ?b) = length (paint ?Q color buf)" by simp
  next
    fix i
    assume "i < length (paint ?P color ?b)"
    then have i: "i < length buf" by simp
    have "?Q (int i) \<longleftrightarrow> (pix \<le> int i \<and> int i < pix + w) \<or> ?P (int i)"
    proof
      assume "?Q (int i)"
      then obtain k where k: "0 \<le> k" "k < int (Suc n)" "pix + k * stride \<le> int i"
        "int i < pix + k * stride + w" by blast
      show "(pix \<le> int i \<and> int i < pix + w) \<or> ?P (int i)"
      proof (cases "k = 0")
        case True
        then show ?thesis using k by simp
      next
        case False
        then have "0 \<le> k - 1 \<and> k - 1 < int n \<and> pix + stride + (k - 1) * stride \<le> int i
            \<and> int i < pix + stride + (k - 1) * stride + w"
          using k by (simp add: algebra_simps)
        then show ?thesis by blast
      qed
    next
      assume "(pix \<le> int i \<and> int i < pix + w) \<or> ?P (int i)"
      then show "?Q (int i)"
      proof
        assume "pix \<le> int i \<and> int i < pix + w"
        then have "0 \<le> (0::int) \<and> 0 < int (Suc n) \<and> pix + 0 * stride \<le> int i \<and> int i < pix + 0 * stride + w"
          by simp
        then show ?thesis by blast
      next
        assume "?P (int i)"
        then obtain k where k: "0 \<le> k" "k < int n" "pix + stride + k * stride \<le> int i"
          "int i < pix + stride + k * stride + w" by blast
        then have "0 \<le> k + 1 \<and> k + 1 < int (Suc n) \<and> pix + (k + 1) * stride \<le> int i
            \<and> int i < pix + (k + 1) * stride + w"
          by (simp add: algebra_simps)
        then show ?thesis by blast
      qed
    qed
    then show "paint ?P color ?b ! i = paint ?Q color buf ! i"
      using i by auto
  qed
  show ?case using row step ih eq by (simp add: algebra_simps)
qed


lemma row_col_div:
  fixes r c s :: int
  assumes "0 \<le> c" and "c < s"
  shows "(r * s + c) div s = r" and "(r * s + c) mod s = c"
  using assms by simp_all

lemma rect_index_iff:
  assumes "0 \<le> x" and "x + w \<le> stride"
  shows "(\<exists>k. 0 \<le> k \<and> k < h \<and> y * stride + x + k * stride \<le> i
              \<and> i < y * stride + x + k * stride + w)
         \<longleftrightarrow> in_rect x y w h stride i"
proof
  assume "\<exists>k. 0 \<le> k \<and> k < h \<and> y * stride + x + k * stride \<le> i
              \<and> i < y * stride + x + k * stride + w"
  then obtain k where k: "0 \<le> k" "k < h" "y * stride + x + k * stride \<le> i"
    "i < y * stride + x + k * stride + w" by blast
  define c where "c = i - (y + k) * stride"
  have c: "x \<le> c" "c < x + w" using k by (simp_all add: c_def algebra_simps)
  then have c0: "0 \<le> c" "c < stride" using assms by simp_all
  have i: "i = (y + k) * stride + c" by (simp add: c_def)
  have "i div stride = y + k" and "i mod stride = c"
    unfolding i using c0 by (rule row_col_div)+
  then show "in_rect x y w h stride i"
    using k c by (simp add: in_rect_def)
next
  assume r: "in_rect x y w h stride i"
  define k where "k = i div stride - y"
  have "i = i div stride * stride + i mod stride" by simp
  then have "i = y * stride + k * stride + i mod stride"
    by (simp add: k_def algebra_simps)
  then have "0 \<le> k \<and> k < h \<and> y * stride + x + k * stride \<le> i
      \<and> i < y * stride + x + k * stride + w"
    using r by (simp add: in_rect_def k_def)
  then show "\<exists>k. 0 \<le> k \<and> k < h \<and> y * stride + x + k * stride \<le> i
              \<and> i < y * stride + x + k * stride + w" by blast
qed

lemma paint_cong:
  assumes "\<And>i. i < length buf \<Longrightarrow> P (int i) = Q (int i)"
  shows "paint P color buf = paint Q color buf"
  using assms by (intro nth_equalityI) simp_all

lemma draw_rect_rgb565_paint:
  assumes "0 \<le> x" and "0 \<le> y" and "0 \<le> w" and "0 \<le> h"
    and "x + w \<le> stride" and "(y + h) * stride \<le> int (length surface)"
    and "int (length surface) < 2 ^ 31"
  shows "draw_rect_rgb565 surface color x y w h stride =
           Some (paint (in_rect x y w h stride) color surface)"
proof (cases "h = 0")
  case True
  have "paint (in_rect x y w h stride) color surface = surface"
    using True by (intro nth_equalityI) (auto simp: in_rect_def)
  then show ?thesis using True by (simp add: draw_rect_rgb565_def)
next
  case False
  then have h: "0 < h" using assms(4) by simp
  have s0: "0 \<le> stride" using assms(1,3,5) by simp
  have ys: "0 \<le> y * stride" using assms(2) s0 by simp
  have "1 * stride \<le> (y + h) * stride"
    using assms(2) h s0 by (intro mult_right_mono) simp_all
  then have s31: "stride < 2 ^ 31" using assms(6,7) by simp
  have "y * stride \<le> (y + h) * stride"
    using h s0 by (intro mult_right_mono) simp_all
  then have base: "int32 (y * stride) = y * stride"
    using ys assms(6,7) by (intro int32_id) simp_all
  have fit: "nat h = 0 \<or> y * stride + x + (int (nat h) - 1) * stride + w \<le> int (length surface)"
  proof -
    have "y * stride + x + (h - 1) * stride + w = (y + h) * stride - stride + (x + w)"
      by (simp add: algebra_simps)
    also have "\<dots> \<le> (y + h) * stride" using assms(5) by simp
    finally show ?thesis using assms(6) h by simp
  qed
  have "draw_rows (nat h) color w stride (y * stride + x) surface =
      Some (paint (\<lambda>i. \<exists>k. 0 \<le> k \<and> k < int (nat h) \<and> y * stride + x + k * stride \<le> i
                \<and> i < y * stride + x + k * stride + w) color surface)"
    using ys assms(1,3,5) s31 fit by (intro draw_rows_paint) simp_all
  moreover have "paint (\<lambda>i. \<exists>k. 0 \<le> k \<and> k < int (nat h) \<and> y * stride + x + k * stride \<le> i
                \<and> i < y * stride + x + k * stride + w) color surface
      = paint (in_rect x y w h stride) color surface"
    using rect_index_iff [OF assms(1,5), of h y] h by (intro paint_cong) simp
  ultimately show ?thesis by (simp add: draw_rect_rgb565_def base)
qed

lemma card_rect:
  assumes "0 \<le> x" and "0 \<le> y" and "0 \<le> w" and "0 \<le> h"
    and "x + w \<le> stride" and "(y + h) * stride \<le> int n"
  shows "card {i. i < n \<and> in_rect x y w h stride (int i)} = nat (w * h)"
proof -
  let ?f = "\<lambda>(r, c). nat (r * stride + c)"
  let ?T = "{y..<y + h} \<times> {x..<x + w}"
  have inj: "inj_on ?f ?T"
  proof (rule inj_onI)
    fix p q
    assume p: "p \<in> ?T" and q: "q \<in> ?T" and e: "?f p = ?f q"
    obtain r c where pr: "p = (r, c)" by (cases p)
    obtain r' c' where qr: "q = (r', c')" by (cases q)
    have c: "0 \<le> c" "c < stride" "0 \<le> r" using p pr assms by auto
    have c': "0 \<le> c'" "c' < stride" "0 \<le> r'" using q qr assms by auto
    have "0 \<le> r * stride + c" and "0 \<le> r' * stride + c'" using c c' by simp_all
    then have eq: "r * stride + c = r' * stride + c'" using e pr qr by simp
    have "(r * stride + c) div stride = r" "(r * stride + c) mod stride = c"
      using c by (simp_all add: row_col_div)
    moreover have "(r' * stride + c') div stride = r'" "(r' * stride + c') mod stride = c'"
      using c' by (simp_all add: row_col_div)
    ultimately show "p = q" using eq pr qr by simp
  qed
  have "{i. i < n \<and> in_rect x y w h stride (int i)} = ?f ` ?T"
  proof (intro set_eqI iffI)
    fix i
    assume "i \<in> {i. i < n \<and> in_rect x y w h stride (int i)}"
    then have i: "i < n" "in_rect x y w h stride (int i)" by simp_all
    then have "(int i div stride, int i mod stride) \<in> ?T" by (simp add: in_rect_def)
    moreover have "?f (int i div stride, int i mod stride) = i" by simp
    ultimately show "i \<in> ?f ` ?T" by (metis (no_types, lifting) image_eqI)
  next
    fix i
    assume "i \<in> ?f ` ?T"
    then obtain r c where rc: "y \<le> r" "r < y + h" "x \<le> c" "c < x + w"
      and i: "i = nat (r * stride + c)" by auto
    have c: "0 \<le> c" "c < stride" "0 \<le> r" using rc assms by simp_all
    have nn: "0 \<le> r * stride + c" using c by simp
    have dm: "(r * stride + c) div stride = r" "(r * stride + c) mod stride = c"
      using c by (simp_all add: row_col_div)
    have "(r + 1) * stride \<le> (y + h) * stride"
      using rc c by (intro mult_right_mono) simp_all
    then have "r * stride + c < (y + h) * stride" using c by (simp add: algebra_simps)
    then have "i < n" using assms(6) i nn by simp
    moreover have "in_rect x y w h stride (int i)"
      using rc dm nn by (simp add: in_rect_def i)
    ultimately show "i \<in> {i. i < n \<and> in_rect x y w h stride (int i)}" by simp
  qed
  then have "card {i. i < n \<and> in_rect x y w h stride (int i)} = card ?T"
    using inj by (simp add: card_image)
  also have "\<dots> = nat h * nat w" by simp
  also have "\<dots> = nat (w * h)" using assms(3,4) by (simp add: nat_mult_distrib mult.commute)
  finally show ?thesis .
qed

text \<open>
  Claim C10: for a rectangle that lies inside the buffer (\<open>x\<close>, \<open>y\<close>, \<open>w\<close>, \<open>h\<close> not
  negative, \<open>x + w\<close> at most the row span, the rows \<open>y, \<dots>, y + h - 1\<close> inside a buffer
  that an \<open>int\<close> can index), \<open>draw_rect_rgb565\<close> writes no pixel outside the buffer,
  sets every pixel of rows \<open>y, \<dots>, y + h - 1\<close> and columns \<open>x, \<dots>, x + w - 1\<close> to the
  colour, leaves every other pixel as it was, and the pixels set are \<open>w * h\<close> in number.
\<close>

theorem draw_rect_rgb565_frame:
  assumes "0 \<le> x" and "0 \<le> y" and "0 \<le> w" and "0 \<le> h"
    and "x + w \<le> stride" and "(y + h) * stride \<le> int (length surface)"
    and "int (length surface) < 2 ^ 31"
  shows "\<exists>buf. draw_rect_rgb565 surface color x y w h stride = Some buf
           \<and> length buf = length surface
           \<and> (\<forall>i < length surface.
                 buf ! i = (if in_rect x y w h stride (int i) then color else surface ! i))
           \<and> card {i. i < length surface \<and> in_rect x y w h stride (int i)} = nat (w * h)"
  using draw_rect_rgb565_paint [OF assms, of color] card_rect [OF assms(1-6)]
  by simp

theorem draw_rect_rgb565_frame_witness:
  "draw_rect_rgb565 [1, 2, 3, 4, 5, 6, 7, 8, 9, 10, 11, 12] 0 1 1 2 2 4
     = Some [1, 2, 3, 4, 5, 0, 0, 8, 9, 0, 0, 12]
   \<and> card {i. i < length [1, 2, 3, 4, 5, 6, 7, 8, 9, 10, 11, 12 :: 16 word]
              \<and> in_rect 1 1 2 2 4 (int i)} = 4"
proof -
  have run: "draw_rect_rgb565 [1, 2, 3, 4, 5, 6, 7, 8, 9, 10, 11, 12] 0 1 1 2 2 4
     = Some [1, 2, 3, 4, 5, 0, 0, 8, 9, 0, 0, 12]"
    by code_simp
  show ?thesis
    using draw_rect_rgb565_frame [of 1 1 2 2 4 "[1, 2, 3, 4, 5, 6, 7, 8, 9, 10, 11, 12]" 0] run
    by simp
qed


section \<open>Properties of planning and of the state machine\<close>

lemma check_rect_None_iff: "check_rect s r = None \<longleftrightarrow> valid_selection s r"
  by (auto simp: check_rect_def valid_selection_def zero_sized_def within_bounds_def)

lemma check_rect_error:
  "\<not> valid_selection s r \<Longrightarrow>
     check_rect s r = Some (if zero_sized r then ZeroSizedRegion else OutOfBounds)"
  by (auto simp: check_rect_def valid_selection_def zero_sized_def within_bounds_def)

lemma plan_operation_succeeds_iff:
  "(\<exists>p. plan_operation src ss dst ds rot hw = Inr p) \<longleftrightarrow>
     valid_selection src (effective_rect src ss) \<and> valid_selection dst (effective_rect dst ds)
     \<and> supported_format (surf_format src) \<and> supported_format (surf_format dst)
     \<and> (rot = SHVEU_ROT_90 \<longrightarrow> swapped_dims (effective_rect src ss) (effective_rect dst ds))"
  by (auto simp: plan_operation_def Let_def check_rect_None_iff [symmetric]
      split: option.splits rotation.splits)


lemma plan_operation_source_error:
  assumes "\<not> valid_selection src (effective_rect src ss)"
  shows "plan_operation src ss dst ds rot hw =
           Inl (if zero_sized (effective_rect src ss) then ZeroSizedRegion else OutOfBounds)"
  using check_rect_error [OF assms] by (simp add: plan_operation_def Let_def)

lemma plan_operation_destination_error:
  assumes "valid_selection src (effective_rect src ss)"
    and "\<not> valid_selection dst (effective_rect dst ds)"
  shows "plan_operation src ss dst ds rot hw =
           Inl (if zero_sized (effective_rect dst ds) then ZeroSizedRegion else OutOfBounds)"
  using check_rect_error [OF assms(2)] assms(1)
  by (simp add: plan_operation_def Let_def check_rect_None_iff [symmetric])

lemma plan_operation_rotation_conflict:
  assumes "valid_selection src (effective_rect src ss)"
    and "valid_selection dst (effective_rect dst ds)"
    and "supported_format (surf_format src)" and "supported_format (surf_format dst)"
    and "\<not> swapped_dims (effective_rect src ss) (effective_rect dst ds)"
  shows "plan_operation src ss dst ds SHVEU_ROT_90 hw = Inl RotationScaleConflict"
  using assms by (simp add: plan_operation_def Let_def check_rect_None_iff [symmetric])

text \<open>
  Claim C4: a request with selection \<open>R\<close> on a surface \<open>S\<close> of supported format, the
  rest of the request being valid (the other rectangle inside its surface and not
  empty, the other format supported, a rotation only with swapped dimensions), is
  planned successfully if and only if \<open>R.x \<ge> 0\<close>, \<open>R.y \<ge> 0\<close>,
  \<open>R.x + R.width \<le> S.width\<close>, \<open>R.y + R.height \<le> S.height\<close>, \<open>R.width > 0\<close> and
  \<open>R.height > 0\<close>, whether \<open>R\<close> selects from the source or from the destination.
  Whatever the rest of the request, a violation yields \<open>ZeroSizedRegion\<close> or
  \<open>OutOfBounds\<close> (for a source selection: \<open>ZeroSizedRegion\<close> when the rectangle is
  empty, \<open>OutOfBounds\<close> otherwise), and a request that fails planning leaves the
  handle, and so the register set, as it was.
\<close>

theorem plan_operation_selection_check:
  "(valid_selection other (effective_rect other osel)
      \<and> supported_format (surf_format S) \<and> supported_format (surf_format other)
      \<and> (rot = SHVEU_ROT_90 \<longrightarrow> swapped_dims R (effective_rect other osel))
    \<longrightarrow> ((\<exists>p. plan_operation S (Some R) other osel rot hw = Inr p) \<longleftrightarrow> valid_selection S R))
   \<and> (valid_selection other (effective_rect other osel)
      \<and> supported_format (surf_format S) \<and> supported_format (surf_format other)
      \<and> (rot = SHVEU_ROT_90 \<longrightarrow> swapped_dims (effective_rect other osel) R)
    \<longrightarrow> ((\<exists>p. plan_operation other osel S (Some R) rot hw = Inr p) \<longleftrightarrow> valid_selection S R))
   \<and> (\<not> valid_selection S R \<longrightarrow>
         plan_operation S (Some R) other osel rot hw =
           Inl (if zero_sized R then ZeroSizedRegion else OutOfBounds)
         \<and> plan_operation other osel S (Some R) rot hw \<in> {Inl OutOfBounds, Inl ZeroSizedRegion})
   \<and> (plan_operation src ss dst ds rot (revision veu) = Inl e \<longrightarrow>
         shveu_setup veu src dst ss ds rot = (Some e, veu))"
proof (intro conjI impI)
  assume "valid_selection other (effective_rect other osel)
      \<and> supported_format (surf_format S) \<and> supported_format (surf_format other)
      \<and> (rot = SHVEU_ROT_90 \<longrightarrow> swapped_dims R (effective_rect other osel))"
  then show "(\<exists>p. plan_operation S (Some R) other osel rot hw = Inr p) \<longleftrightarrow> valid_selection S R"
    by (simp add: plan_operation_succeeds_iff effective_rect_def)
next
  assume "valid_selection other (effective_rect other osel)
      \<and> supported_format (surf_format S) \<and> supported_format (surf_format other)
      \<and> (rot = SHVEU_ROT_90 \<longrightarrow> swapped_dims (effective_rect other osel) R)"
  then show "(\<exists>p. plan_operation other osel S (Some R) rot hw = Inr p) \<longleftrightarrow> valid_selection S R"
    by (simp add: plan_operation_succeeds_iff effective_rect_def)
next
  assume bad: "\<not> valid_selection S R"
  then show "plan_operation S (Some R) other osel rot hw =
      Inl (if zero_sized R then ZeroSizedRegion else OutOfBounds)"
    using plan_operation_source_error [of S "Some R" other osel rot hw]
    by (simp add: effective_rect_def)
  show "plan_operation other osel S (Some R) rot hw \<in> {Inl OutOfBounds, Inl ZeroSizedRegion}"
  proof (cases "valid_selection other (effective_rect other osel)")
    case True
    then show ?thesis
      using bad plan_operation_destination_error [of other osel S "Some R" rot hw]
      by (simp add: effective_rect_def)
  next
    case False
    then show ?thesis
      using plan_operation_source_error [of other osel S "Some R" rot hw] by simp
  qed
next
  assume "plan_operation src ss dst ds rot (revision veu) = Inl e"
  then show "shveu_setup veu src dst ss ds rot = (Some e, veu)"
    by (simp add: shveu_setup_def)
qed

theorem plan_operation_selection_check_witness:
  "(\<exists>p. plan_operation (vga_nv12 0 307200) (Some \<lparr>rect_x = 10, rect_y = 20, rect_w = 100, rect_h = 50\<rparr>)
          (vga_nv12 1000000 1307200) None SHVEU_NO_ROT Revision_B = Inr p)
   \<and> (\<exists>p. plan_operation (vga_nv12 1000000 1307200) None (vga_nv12 0 307200)
          (Some \<lparr>rect_x = 10, rect_y = 20, rect_w = 100, rect_h = 50\<rparr>)
          SHVEU_NO_ROT Revision_B = Inr p)
   \<and> plan_operation (vga_nv12 0 307200) (Some \<lparr>rect_x = 600, rect_y = 20, rect_w = 100, rect_h = 50\<rparr>)
        (vga_nv12 1000000 1307200) None SHVEU_NO_ROT Revision_B = Inl OutOfBounds
   \<and> plan_operation (vga_nv12 0 307200) (Some \<lparr>rect_x = 10, rect_y = 20, rect_w = 0, rect_h = 50\<rparr>)
        (vga_nv12 1000000 1307200) None SHVEU_NO_ROT Revision_B = Inl ZeroSizedRegion
   \<and> shveu_setup (open_engine Revision_B) (vga_nv12 0 307200) (vga_nv12 1000000 1307200)
        (Some \<lparr>rect_x = - 1, rect_y = 20, rect_w = 100, rect_h = 50\<rparr>) None SHVEU_NO_ROT
      = (Some OutOfBounds, open_engine Revision_B)"
proof -
  let ?S = "vga_nv12 0 307200" and ?O = "vga_nv12 1000000 1307200"
  let ?R = "\<lparr>rect_x = 10, rect_y = 20, rect_w = 100, rect_h = 50\<rparr>"
  have good: "valid_selection ?S ?R"
    by (simp add: valid_selection_def vga_nv12_def)
  have other: "valid_selection ?O (effective_rect ?O None)"
    by (simp add: valid_selection_def vga_nv12_def effective_rect_def full_extent_def)
  have fmt: "supported_format (surf_format ?S)" "supported_format (surf_format ?O)"
    by (simp_all add: supported_format_def vga_nv12_def)
  have wide: "\<not> valid_selection ?S \<lparr>rect_x = 600, rect_y = 20, rect_w = 100, rect_h = 50\<rparr>"
    by (simp add: valid_selection_def vga_nv12_def)
  have empty: "\<not> valid_selection ?S \<lparr>rect_x = 10, rect_y = 20, rect_w = 0, rect_h = 50\<rparr>"
    by (simp add: valid_selection_def vga_nv12_def)
  have left: "\<not> valid_selection ?S \<lparr>rect_x = - 1, rect_y = 20, rect_w = 100, rect_h = 50\<rparr>"
    by (simp add: valid_selection_def vga_nv12_def)
  have left_err: "plan_operation ?S (Some \<lparr>rect_x = - 1, rect_y = 20, rect_w = 100, rect_h = 50\<rparr>)
      ?O None SHVEU_NO_ROT (revision (open_engine Revision_B)) = Inl OutOfBounds"
    using plan_operation_selection_check
      [of ?O None ?S SHVEU_NO_ROT "\<lparr>rect_x = - 1, rect_y = 20, rect_w = 100, rect_h = 50\<rparr>"
        "revision (open_engine Revision_B)"] left
    by (simp add: zero_sized_def)
  show ?thesis
    using plan_operation_selection_check [of ?O None ?S SHVEU_NO_ROT ?R Revision_B] good other fmt
      plan_operation_selection_check
        [of ?O None ?S SHVEU_NO_ROT "\<lparr>rect_x = 600, rect_y = 20, rect_w = 100, rect_h = 50\<rparr>"
           Revision_B] wide
      plan_operation_selection_check
        [of ?O None ?S SHVEU_NO_ROT "\<lparr>rect_x = 10, rect_y = 20, rect_w = 0, rect_h = 50\<rparr>"
           Revision_B] empty
      plan_operation_selection_check
        [of ?O None ?S SHVEU_NO_ROT ?R Revision_B ?S
           "Some \<lparr>rect_x = - 1, rect_y = 20, rect_w = 100, rect_h = 50\<rparr>" ?O None
           "open_engine Revision_B" OutOfBounds] left_err
    by (simp add: zero_sized_def)
qed

text \<open>
  Claim C5: with the rotation \<open>Clockwise90\<close> planning succeeds only when the effective
  source width is the effective destination height and the effective source height is
  the effective destination width, and the plan then carries the rotation and no scale
  ratios; a mismatch never yields a plan, and on a request whose rectangles and formats
  are valid the error is \<open>RotationScaleConflict\<close>.
\<close>

theorem rotation_needs_swapped_dims:
  "(plan_operation src ss dst ds SHVEU_ROT_90 hw = Inr p \<longrightarrow>
       rect_w (effective_rect src ss) = rect_h (effective_rect dst ds)
       \<and> rect_h (effective_rect src ss) = rect_w (effective_rect dst ds)
       \<and> plan_rotation p = SHVEU_ROT_90 \<and> plan_scale p = None)
   \<and> (\<not> (rect_w (effective_rect src ss) = rect_h (effective_rect dst ds)
          \<and> rect_h (effective_rect src ss) = rect_w (effective_rect dst ds)) \<longrightarrow>
        (\<exists>e. plan_operation src ss dst ds SHVEU_ROT_90 hw = Inl e)
        \<and> (valid_selection src (effective_rect src ss)
             \<and> valid_selection dst (effective_rect dst ds)
             \<and> supported_format (surf_format src) \<and> supported_format (surf_format dst) \<longrightarrow>
           plan_operation src ss dst ds SHVEU_ROT_90 hw = Inl RotationScaleConflict))"
proof (intro conjI impI)
  assume ok: "plan_operation src ss dst ds SHVEU_ROT_90 hw = Inr p"
  then have "\<exists>p. plan_operation src ss dst ds SHVEU_ROT_90 hw = Inr p" by blast
  then have sw: "swapped_dims (effective_rect src ss) (effective_rect dst ds)"
    by (simp add: plan_operation_succeeds_iff)
  then show "rect_w (effective_rect src ss) = rect_h (effective_rect dst ds)"
    and "rect_h (effective_rect src ss) = rect_w (effective_rect dst ds)"
    by (simp_all add: swapped_dims_def)
  show "plan_rotation p = SHVEU_ROT_90" and "plan_scale p = None"
    using ok by (auto simp: plan_operation_def Let_def split: option.splits if_splits)
next
  assume "\<not> (rect_w (effective_rect src ss) = rect_h (effective_rect dst ds)
          \<and> rect_h (effective_rect src ss) = rect_w (effective_rect dst ds))"
  then have "\<not> (\<exists>p. plan_operation src ss dst ds SHVEU_ROT_90 hw = Inr p)"
    by (simp add: plan_operation_succeeds_iff swapped_dims_def)
  then show "\<exists>e. plan_operation src ss dst ds SHVEU_ROT_90 hw = Inl e"
    by (cases "plan_operation src ss dst ds SHVEU_ROT_90 hw") simp_all
next
  assume "\<not> (rect_w (effective_rect src ss) = rect_h (effective_rect dst ds)
          \<and> rect_h (effective_rect src ss) = rect_w (effective_rect dst ds))"
    and "valid_selection src (effective_rect src ss)
             \<and> valid_selection dst (effective_rect dst ds)
             \<and> supported_format (surf_format src) \<and> supported_format (surf_format dst)"
  then show "plan_operation src ss dst ds SHVEU_ROT_90 hw = Inl RotationScaleConflict"
    by (intro plan_operation_rotation_conflict) (simp_all add: swapped_dims_def)
qed

theorem rotation_needs_swapped_dims_witness:
  "plan_operation cif_rgb565 None cif_rotated_rgb565 None SHVEU_ROT_90 Revision_B =
     Inr \<lparr>plan_src = \<lparr>rect_x = 0, rect_y = 0, rect_w = 352, rect_h = 288\<rparr>,
          plan_dst = \<lparr>rect_x = 0, rect_y = 0, rect_w = 288, rect_h = 352\<rparr>,
          plan_rotation = SHVEU_ROT_90, plan_scale = None,
          plan_src_base = (0, 0), plan_dst_base = (1000000, 0)\<rparr>
   \<and> plan_operation cif_rgb565 None cif_rgb565 None SHVEU_ROT_90 Revision_B =
       Inl RotationScaleConflict"
proof -
  have run: "plan_operation cif_rgb565 None cif_rotated_rgb565 None SHVEU_ROT_90 Revision_B =
     Inr \<lparr>plan_src = \<lparr>rect_x = 0, rect_y = 0, rect_w = 352, rect_h = 288\<rparr>,
          plan_dst = \<lparr>rect_x = 0, rect_y = 0, rect_w = 288, rect_h = 352\<rparr>,
          plan_rotation = SHVEU_ROT_90, plan_scale = None,
          plan_src_base = (0, 0), plan_dst_base = (1000000, 0)\<rparr>"
    by (simp add: plan_operation_def Let_def effective_rect_def full_extent_def check_rect_def
        zero_sized_def within_bounds_def supported_format_def swapped_dims_def
        cif_rgb565_def cif_rotated_rgb565_def)
  have valid: "valid_selection cif_rgb565 (effective_rect cif_rgb565 None)"
    "supported_format (surf_format cif_rgb565)"
    by (simp_all add: valid_selection_def effective_rect_def full_extent_def cif_rgb565_def
        supported_format_def)
  have dims: "rect_w (effective_rect cif_rgb565 None) = 352"
    "rect_h (effective_rect cif_rgb565 None) = 288"
    by (simp_all add: effective_rect_def full_extent_def cif_rgb565_def)
  show ?thesis
    using rotation_needs_swapped_dims [of cif_rgb565 None cif_rotated_rgb565 None Revision_B
        "\<lparr>plan_src = \<lparr>rect_x = 0, rect_y = 0, rect_w = 352, rect_h = 288\<rparr>,
          plan_dst = \<lparr>rect_x = 0, rect_y = 0, rect_w = 288, rect_h = 352\<rparr>,
          plan_rotation = SHVEU_ROT_90, plan_scale = None,
          plan_src_base = (0, 0), plan_dst_base = (1000000, 0)\<rparr>"]
      rotation_needs_swapped_dims [of cif_rgb565 None cif_rgb565 None Revision_B]
      run valid dims
    by simp
qed


text \<open>
  Claim C8: on a handle that is \<open>Idle\<close> or \<open>Running\<close>, \<open>start\<close>, \<open>start_bundle\<close>,
  \<open>set_source\<close> and \<open>set_destination\<close> return \<open>InvalidState\<close> and the handle they
  were given; \<open>configure\<close> does the same on a handle that is \<open>Running\<close>.
\<close>

theorem invalid_state_rejected:
  assumes "job_state veu = Idle \<or> job_state veu = Running"
  shows "start veu = (Some InvalidState, veu)
       \<and> start_bundle line_count veu = (Some InvalidState, veu)
       \<and> set_source luma_addr chroma_addr veu = (Some InvalidState, veu)
       \<and> set_destination luma_addr chroma_addr veu = (Some InvalidState, veu)
       \<and> (job_state veu = Running \<longrightarrow> configure p veu = (Some InvalidState, veu))"
  using assms
  by (auto simp: start_def start_bundle_def set_source_def set_destination_def configure_def)

theorem invalid_state_rejected_witness:
  "start (open_engine Revision_B) = (Some InvalidState, open_engine Revision_B)
   \<and> start_bundle 16 (open_engine Revision_B) = (Some InvalidState, open_engine Revision_B)
   \<and> set_source 0 307200 (open_engine Revision_B)
       = (Some InvalidState, open_engine Revision_B)
   \<and> set_destination 0 307200 (open_engine Revision_B)
       = (Some InvalidState, open_engine Revision_B)
   \<and> job_state running_engine = Running
   \<and> start running_engine = (Some InvalidState, running_engine)
   \<and> start_bundle 16 running_engine = (Some InvalidState, running_engine)
   \<and> set_source 0 307200 running_engine = (Some InvalidState, running_engine)
   \<and> set_destination 0 307200 running_engine = (Some InvalidState, running_engine)
   \<and> configure \<lparr>plan_src = \<lparr>rect_x = 0, rect_y = 0, rect_w = 640, rect_h = 480\<rparr>,
          plan_dst = \<lparr>rect_x = 0, rect_y = 0, rect_w = 640, rect_h = 480\<rparr>,
          plan_rotation = SHVEU_NO_ROT, plan_scale = Some (1, 1),
          plan_src_base = (0, 307200), plan_dst_base = (1000000, 1307200)\<rparr> running_engine
       = (Some InvalidState, running_engine)"
proof -
  have idle: "job_state (open_engine Revision_B) = Idle"
    by (simp add: open_engine_def)
  have running: "job_state running_engine = Running"
    by (simp add: running_engine_def shveu_setup_def plan_operation_def Let_def effective_rect_def
        full_extent_def check_rect_def zero_sized_def within_bounds_def supported_format_def
        vga_nv12_def configure_def start_def open_engine_def)
  show ?thesis
    using invalid_state_rejected [of "open_engine Revision_B" 16 0 307200] idle
      invalid_state_rejected [of running_engine 16 0 307200
        "\<lparr>plan_src = \<lparr>rect_x = 0, rect_y = 0, rect_w = 640, rect_h = 480\<rparr>,
          plan_dst = \<lparr>rect_x = 0, rect_y = 0, rect_w = 640, rect_h = 480\<rparr>,
          plan_rotation = SHVEU_NO_ROT, plan_scale = Some (1, 1),
          plan_src_base = (0, 307200), plan_dst_base = (1000000, 1307200)\<rparr>"] running
    by simp
qed

lemma frame_lines_update [simp]:
  "frame_lines (veu\<lparr>job_state := j\<rparr>) = frame_lines veu"
  "frame_lines (veu\<lparr>src_base := a\<rparr>) = frame_lines veu"
  "frame_lines (veu\<lparr>dst_base := a\<rparr>) = frame_lines veu"
  "frame_lines (veu\<lparr>pending_lines := n\<rparr>) = frame_lines veu"
  "frame_lines (veu\<lparr>lines_done := n\<rparr>) = frame_lines veu"
  by (simp_all add: frame_lines_def)

lemma bundle_cycle:
  assumes "job_state veu = Configured"
  shows "wait True (snd (start_bundle n (snd (set_destination dy dc (snd (set_source sy sc veu)))))) =
     (Inr (frame_lines veu \<le> lines_done veu + n),
      veu\<lparr>src_base := (sy, sc), dst_base := (dy, dc), job_state := Configured,
          pending_lines := 0, lines_done := lines_done veu + n\<rparr>)"
  using assms
  by (simp add: wait_def start_bundle_def set_destination_def set_source_def Let_def)

lemma bundle_loop_chunks:
  assumes "job_state veu = Configured" and "0 < n"
    and "frame_lines veu = lines_done veu + Suc k * n"
  shows "bundle_loop (replicate (Suc k) True @ later) n w dst_step sa da veu =
     Some (Suc k, Inr True,
       veu\<lparr>src_base := (fst sa + k * (n * w), snd sa + k * (n * w div 2)),
           dst_base := (fst da + k * fst dst_step, snd da + k * snd dst_step),
           job_state := Configured, pending_lines := 0, lines_done := frame_lines veu\<rparr>)"
  using assms
proof (induction k arbitrary: veu sa da)
  case 0
  then show ?case
    using bundle_cycle [OF "0.prems"(1), of n "fst da" "snd da" "fst sa" "snd sa"]
    by (simp add: Let_def)
next
  case (Suc k)
  let ?v = "veu\<lparr>src_base := (fst sa, snd sa), dst_base := (fst da, snd da),
      job_state := Configured, pending_lines := 0, lines_done := lines_done veu + n\<rparr>"
  have cyc: "wait True (snd (start_bundle n (snd (set_destination (fst da) (snd da)
      (snd (set_source (fst sa) (snd sa) veu)))))) = (Inr False, ?v)"
    using bundle_cycle [OF Suc.prems(1), of n "fst da" "snd da" "fst sa" "snd sa"] Suc.prems(2,3)
    by simp
  have ih: "bundle_loop (replicate (Suc k) True @ later) n w dst_step
      (fst sa + n * w * 1, snd sa + n * w div 2) (fst da + fst dst_step, snd da + snd dst_step) ?v =
     Some (Suc k, Inr True,
       ?v\<lparr>src_base := (fst (fst sa + n * w * 1, snd sa + n * w div 2) + k * (n * w),
                        snd (fst sa + n * w * 1, snd sa + n * w div 2) + k * (n * w div 2)),
           dst_base := (fst (fst da + fst dst_step, snd da + snd dst_step) + k * fst dst_step,
                        snd (fst da + fst dst_step, snd da + snd dst_step) + k * snd dst_step),
           job_state := Configured, pending_lines := 0, lines_done := frame_lines ?v\<rparr>)"
    using Suc.prems by (intro Suc.IH) simp_all
  show ?case
    using cyc ih by (simp add: Let_def algebra_simps)
qed


lemma bundle_loop_short:
  assumes "job_state veu = Configured" and "lines_done veu + k * n < frame_lines veu"
  shows "bundle_loop (replicate k True) n w dst_step sa da veu = None"
  using assms
proof (induction k arbitrary: veu sa da)
  case 0
  then show ?case by simp
next
  case (Suc k)
  let ?v = "veu\<lparr>src_base := (fst sa, snd sa), dst_base := (fst da, snd da),
      job_state := Configured, pending_lines := 0, lines_done := lines_done veu + n\<rparr>"
  have cyc: "wait True (snd (start_bundle n (snd (set_destination (fst da) (snd da)
      (snd (set_source (fst sa) (snd sa) veu)))))) = (Inr False, ?v)"
    using bundle_cycle [OF Suc.prems(1), of n "fst da" "snd da" "fst sa" "snd sa"] Suc.prems(2)
    by simp
  have ih: "bundle_loop (replicate k True) n w dst_step
      (fst sa + n * w * 1, snd sa + n * w div 2) (fst da + fst dst_step, snd da + snd dst_step) ?v
      = None"
    using Suc.prems by (intro Suc.IH) simp_all
  show ?case
    using cyc ih by (simp add: Let_def)
qed

text \<open>
  Claim C9: a 640 by 480 NV12 surface passed through to a 640 by 480 NV12 surface, run
  by the tool's loop in chunks of 16 lines with both base addresses advanced by 16 rows
  (\<open>16 * 640\<close> luma bytes, \<open>16 * 640 / 2\<close> chroma bytes) per chunk: the loop ends with
  the 30th wait and not before, that wait signals the end of the frame, 480 lines have
  been processed, and the handle is the one a single \<open>start\<close> and \<open>wait\<close> of the same
  configuration leave, but for the base addresses, which stay at the last chunk.
\<close>

theorem bundled_vga_nv12_passthrough:
  "\<exists>p veu0 veu_b veu_f.
      plan_operation (vga_nv12 spy spc) None (vga_nv12 dpy dpc) None SHVEU_NO_ROT hw = Inr p
    \<and> plan_scale p = Some (1, 1)
    \<and> configure p (open_engine hw) = (None, veu0)
    \<and> bundle_loop (replicate 30 True) 16 640 (16 * 640, 16 * 640 div 2) (spy, spc) (dpy, dpc) veu0
        = Some (30, Inr True, veu_b)
    \<and> bundle_loop (replicate 29 True) 16 640 (16 * 640, 16 * 640 div 2) (spy, spc) (dpy, dpc) veu0
        = None
    \<and> lines_done veu_b = 480 \<and> job_state veu_b = Configured
    \<and> wait True (snd (start veu0)) = (Inr True, veu_f)
    \<and> lines_done veu_f = 480 \<and> job_state veu_f = Configured
    \<and> veu_b = veu_f\<lparr>src_base := (spy + 29 * (16 * 640), spc + 29 * (16 * 640 div 2)),
                     dst_base := (dpy + 29 * (16 * 640), dpc + 29 * (16 * 640 div 2))\<rparr>"
proof -
  define p where "p = \<lparr>plan_src = \<lparr>rect_x = 0, rect_y = 0, rect_w = 640, rect_h = 480\<rparr>,
          plan_dst = \<lparr>rect_x = 0, rect_y = 0, rect_w = 640, rect_h = 480\<rparr>,
          plan_rotation = SHVEU_NO_ROT, plan_scale = Some (1, 1),
          plan_src_base = (spy, spc), plan_dst_base = (dpy, dpc)\<rparr>"
  define veu0 where "veu0 = \<lparr>revision = hw, current_config = Some p, job_state = Configured,
      src_base = (spy, spc), dst_base = (dpy, dpc), pending_lines = 0, lines_done = 0\<rparr>"
  define veu_f where "veu_f = veu0\<lparr>lines_done := 480\<rparr>"
  define veu_b where "veu_b =
      veu_f\<lparr>src_base := (spy + 29 * (16 * 640), spc + 29 * (16 * 640 div 2)),
            dst_base := (dpy + 29 * (16 * 640), dpc + 29 * (16 * 640 div 2))\<rparr>"
  have plan: "plan_operation (vga_nv12 spy spc) None (vga_nv12 dpy dpc) None SHVEU_NO_ROT hw = Inr p"
    by (simp add: plan_operation_def Let_def effective_rect_def full_extent_def check_rect_def
        zero_sized_def within_bounds_def supported_format_def vga_nv12_def scale_ratios_def p_def)
  have conf: "configure p (open_engine hw) = (None, veu0)"
    by (simp add: configure_def open_engine_def veu0_def p_def)
  have st: "job_state veu0 = Configured" "lines_done veu0 = 0" "frame_lines veu0 = 480"
    by (simp_all add: veu0_def frame_lines_def p_def)
  have "bundle_loop (replicate (Suc 29) True @ []) 16 640 (16 * 640, 16 * 640 div 2)
      (spy, spc) (dpy, dpc) veu0 = Some (Suc 29, Inr True, veu_b)"
    unfolding veu_b_def veu_f_def
    using st by (subst bundle_loop_chunks) (simp_all add: veu0_def)
  then have bundled: "bundle_loop (replicate 30 True) 16 640 (16 * 640, 16 * 640 div 2)
      (spy, spc) (dpy, dpc) veu0 = Some (30, Inr True, veu_b)"
    by simp
  have short: "bundle_loop (replicate 29 True) 16 640 (16 * 640, 16 * 640 div 2)
      (spy, spc) (dpy, dpc) veu0 = None"
    using st by (intro bundle_loop_short) simp_all
  have full: "wait True (snd (start veu0)) = (Inr True, veu_f)"
    by (simp add: start_def wait_def Let_def veu_f_def veu0_def frame_lines_def p_def)
  have "lines_done veu_b = 480" "job_state veu_b = Configured"
    "lines_done veu_f = 480" "job_state veu_f = Configured"
    by (simp_all add: veu_b_def veu_f_def veu0_def)
  then show ?thesis
    using plan conf bundled short full veu_b_def p_def by (intro exI [of _ p] exI [of _ veu0] exI [of _ veu_b] exI [of _ veu_f]) simp
qed


theorem bundled_vga_nv12_passthrough_witness:
  "\<exists>p veu0 veu_b veu_f.
      plan_operation (vga_nv12 0 307200) None (vga_nv12 1000000 1307200) None SHVEU_NO_ROT
        Revision_A = Inr p
    \<and> configure p (open_engine Revision_A) = (None, veu0)
    \<and> bundle_loop (replicate 30 True) 16 640 (16 * 640, 16 * 640 div 2) (0, 307200)
        (1000000, 1307200) veu0 = Some (30, Inr True, veu_b)
    \<and> lines_done veu_b = 480
    \<and> wait True (snd (start veu0)) = (Inr True, veu_f)
    \<and> lines_done veu_f = 480
    \<and> src_base veu_b = (296960, 455680)"
  using bundled_vga_nv12_passthrough [of 0 307200 1000000 1307200 Revision_A]
  by auto

end
